theory Spec2Isabelle
  imports Complex_Main "HOL-Library.Word"
begin

section \<open>Decode\_videos.py: the per-frame detection and decoding pipeline\<close>

text \<open>
  The embedding follows \<^verbatim>\<open>src/SCRIPTS_2020/Bup/Decode_videos.py\<close>. Finite floating-point
  values are modelled by exact reals; the special values that numpy's division produces
  (\<open>nan\<close>, \<open>inf\<close>) are explicit constructors of the type \<open>npfloat\<close>. Pixel values are
  8-bit words. Python exceptions are values of the type \<open>error\<close>, returned on the left of
  a sum. Functions of OpenCV (\<^verbatim>\<open>cv2\<close>), whose code is not part of the repository, are
  fields of a record that the pipeline takes as a parameter.
\<close>

subsection \<open>Errors and numpy basics\<close>

datatype error = AssertionError | ValueError | IndexError | NameError | AxisError

type_synonym point = "real \<times> real"

text \<open>\<^verbatim>\<open>np.argsort\<close> on the short arrays of this program is an insertion sort, hence stable:
  the indices ordered by key, equal keys in index order.\<close>

definition argsort :: "real list \<Rightarrow> nat list" where
  "argsort ks = sort_key (\<lambda>i. ks ! i) [0..<length ks]"

text \<open>\<^verbatim>\<open>a[idx, :]\<close>: the rows of \<open>a\<close> picked by an index array (indices produced by
  \<open>argsort\<close> are always in range).\<close>

definition take_rows :: "'a list \<Rightarrow> nat list \<Rightarrow> 'a list" where
  "take_rows a idx = map (\<lambda>i. a ! i) idx"

text \<open>\<^verbatim>\<open>dist.cdist(tl[np.newaxis], right, "euclidean")[0]\<close>\<close>

definition euclidean :: "point \<Rightarrow> point \<Rightarrow> real" where
  "euclidean p q = sqrt ((fst p - fst q)\<^sup>2 + (snd p - snd q)\<^sup>2)"

definition cdist0 :: "point \<Rightarrow> point list \<Rightarrow> real list" where
  "cdist0 p right = map (euclidean p) right"

subsection \<open>The cast to float32\<close>

text \<open>
  \<^verbatim>\<open>np.array(..., dtype="float32")\<close> rounds every coordinate to the nearest binary32
  value, ties to even: 24 significant bits (\<open>round_to 23\<close>: 23 bits after the leading
  one), with the spacing of the subnormal numbers below \<open>2\<^sup>-\<^sup>1\<^sup>2\<^sup>6\<close>. Magnitudes of \<open>2\<^sup>1\<^sup>2\<^sup>8\<close> and more, which the cast turns into
  infinities, are beyond every image size and are rounded like the others here.
\<close>

definition round_half_even :: "real \<Rightarrow> int" where
  "round_half_even y =
     (let f = \<lfloor>y\<rfloor>; d = y - of_int f
      in if d < 1 / 2 then f else if d > 1 / 2 then f + 1 else if even f then f else f + 1)"

definition round_to :: "nat \<Rightarrow> int \<Rightarrow> real \<Rightarrow> real" where
  "round_to p emin v =
     (if v = 0 then 0
      else
        let e = max \<lfloor>log 2 \<bar>v\<bar>\<rfloor> emin;
            ulp = 2 powr (of_int e - of_nat p)
        in ulp * of_int (round_half_even (v / ulp)))"

definition float32 :: "real \<Rightarrow> real" where
  "float32 v = round_to 23 (- 126) v"

text \<open>Likewise the results of Python's float operations, with 53 significant bits.\<close>

definition float64 :: "real \<Rightarrow> real" where
  "float64 v = round_to 52 (- 1022) v"

definition astype_float32 :: "point list \<Rightarrow> point list" where
  "astype_float32 ps = map (\<lambda>p. (float32 (fst p), float32 (snd p))) ps"

text \<open>
  The coordinates that \<^verbatim>\<open>run_decoder\<close> passes to \<open>order_points\<close> are the int32 pixel
  coordinates of a polygon in the frame: whole numbers, here of magnitude below \<open>2\<^sup>2\<^sup>4\<close>.
\<close>

definition pixel_coordinate :: "real \<Rightarrow> bool" where
  "pixel_coordinate v \<longleftrightarrow> of_int \<lfloor>v\<rfloor> = v \<and> \<bar>v\<bar> < 2 ^ 24"

definition pixel_points :: "point list \<Rightarrow> bool" where
  "pixel_points ps = list_all (\<lambda>p. pixel_coordinate (fst p) \<and> pixel_coordinate (snd p)) ps"

subsection \<open>order\_points\<close>

text \<open>
  The tuple unpackings \<^verbatim>\<open>(tl, bl) = left\<close> and \<^verbatim>\<open>(br, tr) = right[...]\<close> raise
  \<open>ValueError\<close> unless both halves have exactly two rows, that is unless \<open>pts\<close> has four
  rows. The result is \<^verbatim>\<open>np.array([tl, tr, br, bl], dtype="float32")\<close>. The distances of
  \<^verbatim>\<open>cdist\<close> are exact here; on pixel coordinates their float64 values are ordered
  alike.
\<close>

definition order_points :: "point list \<Rightarrow> error + point list" where
  "order_points pts =
     (let sorted' = take_rows pts (argsort (map fst pts));
          left = take 2 sorted';
          right = drop 2 sorted';
          left = take_rows left (argsort (map snd left))
      in if length left \<noteq> 2 then Inl ValueError
         else
           let tl' = left ! 0; bl' = left ! 1;
               D = cdist0 tl' right;
               right' = take_rows right (rev (argsort D))
           in if length right' \<noteq> 2 then Inl ValueError
              else
                let br' = right' ! 0; tr' = right' ! 1
                in Inr (astype_float32 [tl', tr', br', bl']))"

subsection \<open>Floating-point results and reductions\<close>

text \<open>
  \<^verbatim>\<open>np.divide\<close> on finite operands: a zero divisor gives \<open>nan\<close> (for \<open>0/0\<close>) or an
  infinity, with a warning and no exception.
\<close>

datatype npfloat = Fin real | PInf | NInf | NaN

definition np_divide :: "real \<Rightarrow> real \<Rightarrow> npfloat" where
  "np_divide a b =
     (if b \<noteq> 0 then Fin (a / b)
      else if a > 0 then PInf else if a < 0 then NInf else NaN)"

text \<open>The comparison \<open>a <= b\<close> of two floats; every comparison with \<open>nan\<close> is false.\<close>

fun fl_le :: "npfloat \<Rightarrow> npfloat \<Rightarrow> bool" where
  "fl_le NaN _ = False"
| "fl_le _ NaN = False"
| "fl_le NInf _ = True"
| "fl_le _ PInf = True"
| "fl_le (Fin a) (Fin b) = (a \<le> b)"
| "fl_le (Fin a) NInf = False"
| "fl_le PInf (Fin b) = False"
| "fl_le PInf NInf = False"

text \<open>\<^verbatim>\<open>best_value > 0.8\<close>: a float against a finite literal.\<close>

fun fl_gt :: "npfloat \<Rightarrow> real \<Rightarrow> bool" where
  "fl_gt (Fin a) t = (a > t)"
| "fl_gt PInf t = True"
| "fl_gt NInf t = False"
| "fl_gt NaN t = False"

text \<open>The literal \<^verbatim>\<open>0.8\<close> is the double nearest to \<open>4/5\<close>, which lies just above it.\<close>

definition acceptance :: real where
  "acceptance = 3602879701896397 / 4503599627370496"

text \<open>\<^verbatim>\<open>np.max\<close> propagates \<open>nan\<close>, and raises \<open>ValueError\<close> on an empty array.\<close>

definition np_maximum :: "npfloat \<Rightarrow> npfloat \<Rightarrow> npfloat" where
  "np_maximum a b = (if a = NaN \<or> b = NaN then NaN else if fl_le a b then b else a)"

definition np_max :: "npfloat list \<Rightarrow> error + npfloat" where
  "np_max xs = (case xs of [] \<Rightarrow> Inl ValueError | v # vs \<Rightarrow> Inr (foldl np_maximum v vs))"

text \<open>\<^verbatim>\<open>np.argmax\<close> on the flattened array: the first index of the maximum, where a
  \<open>nan\<close> counts as maximal and ends the scan; \<open>ValueError\<close> on an empty array.\<close>

fun argmax_scan :: "npfloat \<Rightarrow> nat \<Rightarrow> nat \<Rightarrow> npfloat list \<Rightarrow> nat" where
  "argmax_scan mp mi i [] = mi"
| "argmax_scan mp mi i (v # vs) =
     (if mp = NaN then mi
      else if \<not> fl_le v mp then argmax_scan v i (Suc i) vs
      else argmax_scan mp mi (Suc i) vs)"

definition np_argmax :: "npfloat list \<Rightarrow> error + nat" where
  "np_argmax xs = (case xs of [] \<Rightarrow> Inl ValueError | v # vs \<Rightarrow> Inr (argmax_scan v 0 1 vs))"

subsection \<open>corr2\_coeff\<close>

definition mean1 :: "real list \<Rightarrow> real" where
  "mean1 row = sum_list row / real (length row)"

definition subtract_mean :: "real list \<Rightarrow> real list" where
  "subtract_mean row = map (\<lambda>v. v - mean1 row) row"

definition sum_squares :: "real list \<Rightarrow> real" where
  "sum_squares row = sum_list (map (\<lambda>v. v\<^sup>2) row)"

definition dot :: "real list \<Rightarrow> real list \<Rightarrow> real" where
  "dot u v = sum_list (map2 (*) u v)"

text \<open>
  A two-dimensional array is the list of its rows. \<^verbatim>\<open>np.array\<close> of an empty list of rows
  is one-dimensional, on which \<^verbatim>\<open>.mean(1)\<close> raises \<open>AxisError\<close>; \<^verbatim>\<open>np.dot(A_mA, B_mB.T)\<close>
  raises \<open>ValueError\<close> unless the rows of both arrays have the same length. The result
  has one row per row of \<open>A\<close> and one column per row of \<open>B\<close>. The float64 operations
  on finite values are taken without their rounding; a division by zero is as \<open>np_divide\<close>
  has it.
\<close>

definition corr2_coeff :: "real list list \<Rightarrow> real list list \<Rightarrow> error + npfloat list list" where
  "corr2_coeff A B =
     (if A = [] \<or> B = [] then Inl AxisError
      else
        let A_mA = map subtract_mean A;
            B_mB = map subtract_mean B;
            ssA = map sum_squares A_mA;
            ssB = map sum_squares B_mB
        in if \<exists>a \<in> set A. \<exists>b \<in> set B. length a \<noteq> length b then Inl ValueError
           else Inr (map (\<lambda>(a, sa). map (\<lambda>(b, sb). np_divide (dot a b) (sqrt (sa * sb)))
                                          (zip B_mB ssB))
                         (zip A_mA ssA)))"

subsection \<open>angle\<close>

text \<open>
  \<^verbatim>\<open>np.arctan2\<close> on two float32 values is the function \<open>atan2f\<close> of the C library, whose
  rounding the source does not fix: it is a parameter, with finite values. Its result is
  a float32, and \<^verbatim>\<open>% (2*np.pi)\<close> with the Python float \<^verbatim>\<open>2*np.pi\<close> is the remainder of
  float64: the exact \<open>fmod\<close>, to which the divisor is added (and the sum rounded) when it
  is not zero and its sign is not the divisor's. \<^verbatim>\<open>np.degrees\<close> multiplies by the
  double \<^verbatim>\<open>180.0/pi\<close>.
\<close>

definition two_pi :: real where
  "two_pi = 884279719003555 / 140737488355328"

definition rad2deg :: real where
  "rad2deg = 1007958012753983 / 17592186044416"

definition fmod :: "real \<Rightarrow> real \<Rightarrow> real" where
  "fmod a b = a - b * of_int (if a / b < 0 then \<lceil>a / b\<rceil> else \<lfloor>a / b\<rfloor>)"

definition np_remainder :: "real \<Rightarrow> real \<Rightarrow> real" where
  "np_remainder a b =
     (let m = fmod a b
      in if m \<noteq> 0 \<and> (b < 0) \<noteq> (m < 0) then float64 (m + b) else m)"

definition np_degrees :: "real \<Rightarrow> real" where
  "np_degrees a = float64 (a * rad2deg)"

text \<open>\<^verbatim>\<open>np.isnan\<close> of a finite value.\<close>

definition np_isnan :: "real \<Rightarrow> bool" where
  "np_isnan a = False"

text \<open>
  The branch under \<^verbatim>\<open>np.isnan(angle)\<close> reads the names \<^verbatim>\<open>v1_u\<close> and \<^verbatim>\<open>v2_u\<close>, which
  are assigned nowhere (their assignments are commented out): it raises \<open>NameError\<close>.
\<close>

definition angle :: "(real \<Rightarrow> real \<Rightarrow> real) \<Rightarrow> point \<Rightarrow> bool \<Rightarrow> error + real" where
  "angle atan2f vector degrees =
     (let a = np_remainder (atan2f (snd vector) (fst vector)) two_pi
      in if np_isnan a then Inl NameError
         else if degrees then Inr (np_degrees a)
         else Inr a)"

subsection \<open>The record written for an accepted detection\<close>

text \<open>One line of the output file: \<^verbatim>\<open>msec, frame_number, id, id_prob, x, y, orientation\<close>.\<close>

record detection =
  msec :: real
  frame_number :: real
  tag_id :: int
  id_prob :: npfloat
  pos_x :: real
  pos_y :: real
  orientation :: real

text \<open>
  \<^verbatim>\<open>a.mean(0)\<close> and \<^verbatim>\<open>np.mean([p, q], axis = 0)\<close> on rows of float32: each column is added
  up from its first cell on, row after row, and divided by the number of rows, every
  result rounded to float32. (The mean of no rows is not taken anywhere.)
\<close>

definition add_reduce :: "real list \<Rightarrow> real" where
  "add_reduce col = (case col of [] \<Rightarrow> 0 | v # vs \<Rightarrow> foldl (\<lambda>s x. float32 (s + x)) v vs)"

definition mean0 :: "point list \<Rightarrow> point" where
  "mean0 ps = (float32 (add_reduce (map fst ps) / real (length ps)),
               float32 (add_reduce (map snd ps) / real (length ps)))"

text \<open>
  Lines 462 to 513 of \<^verbatim>\<open>run_decoder\<close>, the body of \<^verbatim>\<open>if best_value > 0.8\<close>, for the
  corners \<^verbatim>\<open>(tl, tr, br, bl) = pts\<close>, an array of float32. \<^verbatim>\<open>centroid[1] = -centroid[1]\<close>
  updates the array \<open>centroid\<close> in place, and the line written afterwards reads the same
  array. \<^verbatim>\<open>np.subtract\<close> rounds to float32; the sums \<^verbatim>\<open>centroid[0]+pt1[0]\<close> and
  \<^verbatim>\<open>centroid[1]+pt1[1]\<close> of a float32 and an int are float64, which holds the sum of a
  multiple of a quarter and an integer exactly.
\<close>

definition emit_detection ::
  "(real \<Rightarrow> real \<Rightarrow> real) \<Rightarrow> int list \<Rightarrow> point list \<Rightarrow> nat \<Rightarrow> npfloat \<Rightarrow> point \<Rightarrow> real \<Rightarrow> real \<Rightarrow> error + detection" where
  "emit_detection atan2f IDs pts best_index best_value pt1 pos_msec pos_frames =
     (case pts of
        [tl', tr', br', bl'] \<Rightarrow>
          if \<not> best_index < length IDs then Inl IndexError
          else
            let ID = IDs ! best_index;
                centroid = mean0 pts;
                rotate_test = best_index mod 4;
                edge = (if rotate_test = 3 then Some (mean0 [tl', tr'])
                        else if rotate_test = 0 then Some (mean0 [tl', bl'])
                        else if rotate_test = 1 then Some (mean0 [br', bl'])
                        else if rotate_test = 2 then Some (mean0 [br', tr'])
                        else None)
            in (case edge of
                  None \<Rightarrow> Inl NameError
                | Some edge \<Rightarrow>
                    let edge = (fst edge, - snd edge);
                        centroid = (fst centroid, - snd centroid);
                        vector = (float32 (fst edge - fst centroid), float32 (snd edge - snd centroid))
                    in (case angle atan2f vector True of
                          Inl e \<Rightarrow> Inl e
                        | Inr vector_angle \<Rightarrow>
                            Inr \<lparr>msec = pos_msec, frame_number = pos_frames, tag_id = ID,
                                 id_prob = best_value,
                                 pos_x = fst centroid + fst pt1, pos_y = snd centroid + snd pt1,
                                 orientation = vector_angle\<rparr>))
      | _ \<Rightarrow> Inl ValueError)"


subsection \<open>Images, contours and the OpenCV functions\<close>

type_synonym contour = "(int \<times> int) list"

type_synonym gray = "8 word list list"

text \<open>A colour frame: rows of pixels in the channel order blue, green, red.\<close>

type_synonym frame = "(8 word \<times> 8 word \<times> 8 word) list list"

text \<open>
  The functions of \<^verbatim>\<open>cv2\<close> that \<^verbatim>\<open>run_decoder\<close> calls, with the arguments that vary;
  \<open>contourArea\<close> is called with \<^verbatim>\<open>oriented = True\<close>, \<open>arcLength\<close> and \<open>approxPolyDP\<close> with
  \<^verbatim>\<open>closed = True\<close>, \<open>resize\<close> with \<^verbatim>\<open>INTER_AREA\<close>. \<open>resize_float\<close> is \<^verbatim>\<open>cv2.resize\<close> on the
  float arrays of the pattern library, given as a shape and the flattened cells.
\<close>

record cv2 =
  cvtColor_BGR2GRAY :: "frame \<Rightarrow> gray"
  GaussianBlur :: "gray \<Rightarrow> nat \<times> nat \<Rightarrow> real \<Rightarrow> gray"
  adaptiveThreshold :: "gray \<Rightarrow> 8 word \<Rightarrow> int \<Rightarrow> real \<Rightarrow> gray"
  findContours :: "gray \<Rightarrow> contour list"
  contourArea :: "contour \<Rightarrow> real"
  arcLength :: "contour \<Rightarrow> real"
  approxPolyDP :: "contour \<Rightarrow> real \<Rightarrow> contour"
  isContourConvex :: "contour \<Rightarrow> bool"
  getPerspectiveTransform :: "point list \<Rightarrow> point list \<Rightarrow> real list list"
  warpPerspective :: "gray \<Rightarrow> real list list \<Rightarrow> nat \<times> nat \<Rightarrow> 8 word \<Rightarrow> gray"
  resize :: "gray \<Rightarrow> nat \<times> nat \<Rightarrow> gray"
  resize_float :: "(nat \<times> nat) \<times> real list \<Rightarrow> nat \<times> nat \<Rightarrow> (nat \<times> nat) \<times> real list"

subsection \<open>crop, get\_grayscale, get\_threshold, get\_contours\<close>

definition crop :: "'a list list \<Rightarrow> nat \<times> nat \<Rightarrow> nat \<times> nat \<Rightarrow> 'a list list" where
  "crop src pt1 pt2 =
     map (\<lambda>row. drop (fst pt1) (take (fst pt2) row)) (drop (snd pt1) (take (snd pt2) src))"

datatype channel = Blue | Green | Red | NoneStr | NoneVal

text \<open>
  The assertions of \<^verbatim>\<open>get_grayscale\<close> (a known channel, a three-dimensional \<open>uint8\<close>
  array with three colour channels) hold for every value of the types \<open>channel\<close> and
  \<open>frame\<close>.
\<close>

definition get_grayscale :: "cv2 \<Rightarrow> frame \<Rightarrow> channel \<Rightarrow> error + gray" where
  "get_grayscale cv color_image ch =
     Inr (case ch of
            Blue \<Rightarrow> map (map (\<lambda>(b, g, r). b)) color_image
          | Green \<Rightarrow> map (map (\<lambda>(b, g, r). g)) color_image
          | Red \<Rightarrow> map (map (\<lambda>(b, g, r). r)) color_image
          | _ \<Rightarrow> cvtColor_BGR2GRAY cv color_image)"

definition get_threshold :: "cv2 \<Rightarrow> gray \<Rightarrow> int \<Rightarrow> real \<Rightarrow> error + gray" where
  "get_threshold cv gray_image block_size offset =
     (if block_size mod 2 \<noteq> 1 then Inl AssertionError
      else Inr (adaptiveThreshold cv gray_image 255 block_size offset))"

text \<open>
  \<^verbatim>\<open>assert len(set([0, 255]) - set(np.unique(threshold_image))) == 0\<close>: the values of
  \<open>[0, 255]\<close> that do not occur in the image are counted, and there must be none.
\<close>

definition get_contours :: "cv2 \<Rightarrow> gray \<Rightarrow> error + contour list" where
  "get_contours cv threshold_image =
     (if length (filter (\<lambda>v. v \<notin> set (concat threshold_image)) (remdups [0, 255])) \<noteq> 0
      then Inl AssertionError
      else Inr (findContours cv threshold_image))"

subsection \<open>run\_decoder: one candidate contour\<close>

definition barcode_size :: "nat \<times> nat" where
  "barcode_size = (7, 7)"

definition flat_len :: nat where
  "flat_len = fst barcode_size * snd barcode_size"

definition maxSide :: nat where
  "maxSide = 100"

definition dst :: "point list" where
  "dst = (let length' = real maxSide - 1
          in [(0, 0), (length', 0), (length', length'), (0, length')])"

definition edge_thresh :: int where
  "edge_thresh = 1"

text \<open>The literal \<^verbatim>\<open>0.07\<close> of \<^verbatim>\<open>0.07 * peri_cnt\<close>: the double nearest to \<open>7/100\<close>.\<close>

definition epsilon_factor :: real where
  "epsilon_factor = 1261007895663739 / 18014398509481984"

text \<open>
  Lines 459 to 514: the best value of the array \<open>correlation\<close>, the acceptance test, and
  the record of an accepted detection.
\<close>

definition accept_match ::
  "(real \<Rightarrow> real \<Rightarrow> real) \<Rightarrow> int list \<Rightarrow> point list \<Rightarrow> npfloat list list \<Rightarrow> point \<Rightarrow> real \<Rightarrow> real
     \<Rightarrow> error + detection option" where
  "accept_match atan2f IDs pts correlation pt1 pos_msec pos_frames =
     (case np_max (concat correlation) of
        Inl e \<Rightarrow> Inl e
      | Inr best_value \<Rightarrow>
          if fl_gt best_value acceptance then
            (case np_argmax (concat correlation) of
               Inl e \<Rightarrow> Inl e
             | Inr best_index \<Rightarrow>
                 (case emit_detection atan2f IDs pts best_index best_value pt1 pos_msec pos_frames of
                    Inl e \<Rightarrow> Inl e
                  | Inr d \<Rightarrow> Inr (Some d)))
          else Inr None)"

text \<open>
  Lines 457 to 514: the correlation of the resampled patch with the library, then the
  lines above. \<^verbatim>\<open>reshape((1, flat_len))\<close> raises \<open>ValueError\<close> on an array that does not
  have \<open>flat_len\<close> cells.
\<close>

definition decode_patch ::
  "(real \<Rightarrow> real \<Rightarrow> real) \<Rightarrow> real list list \<Rightarrow> int list \<Rightarrow> point list \<Rightarrow> gray \<Rightarrow> point \<Rightarrow> real \<Rightarrow> real
     \<Rightarrow> error + detection option" where
  "decode_patch atan2f barcodes IDs pts resize_warp pt1 pos_msec pos_frames =
     (if length (concat resize_warp) \<noteq> flat_len then Inl ValueError
      else
        case corr2_coeff barcodes [map (\<lambda>v. real (unat v)) (concat resize_warp)] of
          Inl e \<Rightarrow> Inl e
        | Inr correlation \<Rightarrow> accept_match atan2f IDs pts correlation pt1 pos_msec pos_frames)"

text \<open>
  Lines 401 to 456: the geometric filters on the raw contour and on its polygon
  approximation, the canonical corner order and the rectified patch. The result is the
  record written for the contour, if any. The product \<^verbatim>\<open>0.07 * peri_cnt\<close> and the quotient
  \<^verbatim>\<open>peri_cnt/area\<close> are Python floats, rounded to float64. The perimeter \<open>peri_approx\<close> of
  the polygon is computed and not used.
\<close>

definition process_contour ::
  "(real \<Rightarrow> real \<Rightarrow> real) \<Rightarrow> cv2 \<Rightarrow> real list list \<Rightarrow> int list \<Rightarrow> gray \<Rightarrow> nat \<times> nat \<Rightarrow> point \<Rightarrow> real \<Rightarrow> real
     \<Rightarrow> contour \<Rightarrow> error + detection option" where
  "process_contour atan2f cv barcodes IDs gray' image_shape pt1 pos_msec pos_frames cnt =
     (let maxx_thresh = int (snd image_shape) - edge_thresh;
          maxy_thresh = int (fst image_shape) - edge_thresh
      in if length cnt \<ge> 4 then
           let area = contourArea cv cnt
           in if -10 > area \<and> area > -2000 then
                let cnt_x = map fst cnt;
                    cnt_y = map snd cnt;
                    flat = concat (map (\<lambda>(px, py). [px, py]) cnt);
                    edge_zero = length (filter (\<lambda>v. v \<le> edge_thresh) flat);
                    edge_maxx = length (filter (\<lambda>v. v \<ge> maxx_thresh) cnt_x);
                    edge_maxy = length (filter (\<lambda>v. v \<ge> maxy_thresh) cnt_y)
                in if edge_zero = 0 \<and> edge_maxx = 0 \<and> edge_maxy = 0 then
                     let peri_cnt = arcLength cv cnt;
                         approx = approxPolyDP cv cnt (float64 (epsilon_factor * peri_cnt));
                         poly_area = contourArea cv approx
                     in if length approx = 4 \<and> -10 > poly_area \<and> poly_area > -2000
                           \<and> isContourConvex cv approx \<and> 0 < peri_cnt \<and> peri_cnt < 500 then
                          let peri_approx = arcLength cv approx;
                              periarea = float64 (peri_cnt / area)
                          in if -0.5 < periarea \<and> periarea \<le> 0 then
                               (case order_points (map (\<lambda>(px, py). (real_of_int px, real_of_int py)) approx) of
                                  Inl e \<Rightarrow> Inl e
                                | Inr pts \<Rightarrow>
                                    let M = getPerspectiveTransform cv pts dst;
                                        warped = warpPerspective cv gray' M (maxSide, maxSide) 255;
                                        resize_warp = resize cv warped barcode_size
                                    in decode_patch atan2f barcodes IDs pts resize_warp pt1 pos_msec pos_frames)
                             else Inr None
                        else Inr None
                   else Inr None
              else Inr None
         else Inr None)"

subsection \<open>run\_decoder: one frame\<close>

fun process_contours ::
  "(real \<Rightarrow> real \<Rightarrow> real) \<Rightarrow> cv2 \<Rightarrow> real list list \<Rightarrow> int list \<Rightarrow> gray \<Rightarrow> nat \<times> nat \<Rightarrow> point \<Rightarrow> real \<Rightarrow> real
     \<Rightarrow> contour list \<Rightarrow> error + detection list" where
  "process_contours atan2f cv barcodes IDs gray' image_shape pt1 pos_msec pos_frames [] = Inr []"
| "process_contours atan2f cv barcodes IDs gray' image_shape pt1 pos_msec pos_frames (cnt # contours) =
     (case process_contour atan2f cv barcodes IDs gray' image_shape pt1 pos_msec pos_frames cnt of
        Inl e \<Rightarrow> Inl e
      | Inr r \<Rightarrow>
          (case process_contours atan2f cv barcodes IDs gray' image_shape pt1 pos_msec pos_frames contours of
             Inl e \<Rightarrow> Inl e
           | Inr rs \<Rightarrow> Inr ((case r of None \<Rightarrow> [] | Some d \<Rightarrow> [d]) @ rs)))"

text \<open>\<^verbatim>\<open>image.shape[:2]\<close>: the numbers of rows and of columns.\<close>

definition shape2 :: "'a list list \<Rightarrow> nat \<times> nat" where
  "shape2 img = (length img, (case img of [] \<Rightarrow> 0 | row # _ \<Rightarrow> length row))"

text \<open>
  Lines 385 to 514, the body of the loop for a frame that was read: the records written
  for the frame, in the order of the contours, or the exception that ends the run.
\<close>

definition process_frame ::
  "(real \<Rightarrow> real \<Rightarrow> real) \<Rightarrow> cv2 \<Rightarrow> real list list \<Rightarrow> int list \<Rightarrow> nat \<times> nat \<Rightarrow> nat \<times> nat \<Rightarrow> real \<Rightarrow> real
     \<Rightarrow> frame \<Rightarrow> error + detection list" where
  "process_frame atan2f cv barcodes IDs pt1 pt2 pos_msec pos_frames image' =
     (let image' = crop image' pt1 pt2
      in case get_grayscale cv image' Green of
           Inl e \<Rightarrow> Inl e
         | Inr gray' \<Rightarrow>
             let gray' = GaussianBlur cv gray' (1, 1) 1
             in (case get_threshold cv gray' 201 (-25) of
                   Inl e \<Rightarrow> Inl e
                 | Inr thresh \<Rightarrow>
                     (case get_contours cv thresh of
                        Inl e \<Rightarrow> Inl e
                      | Inr contours \<Rightarrow>
                          process_contours atan2f cv barcodes IDs gray' (shape2 image')
                            (real (fst pt1), real (snd pt1)) pos_msec pos_frames contours)))"


subsection \<open>A fixed instance of the OpenCV functions\<close>

text \<open>
  For evaluating the pipeline on examples: an instance of \<open>cv2\<close> whose functions return
  given values (the thresholded image, the contours found in it, the area and perimeter
  measured, the polygon approximation, its convexity and the resampled patch).
\<close>

definition fixed_cv ::
  "gray \<Rightarrow> contour list \<Rightarrow> real \<Rightarrow> real \<Rightarrow> contour \<Rightarrow> bool \<Rightarrow> gray \<Rightarrow> cv2" where
  "fixed_cv thresh contours area peri approx convex patch =
     \<lparr>cvtColor_BGR2GRAY = (\<lambda>f. map (map (\<lambda>(b, g, r). g)) f),
      GaussianBlur = (\<lambda>g k s. g),
      adaptiveThreshold = (\<lambda>g m b c. thresh),
      findContours = (\<lambda>t. contours),
      contourArea = (\<lambda>c. area),
      arcLength = (\<lambda>c. peri),
      approxPolyDP = (\<lambda>c eps. approx),
      isContourConvex = (\<lambda>c. convex),
      getPerspectiveTransform = (\<lambda>p q. []),
      warpPerspective = (\<lambda>g m s v. []),
      resize = (\<lambda>g s. patch),
      resize_float = (\<lambda>a s. a)\<rparr>"


text \<open>Likewise an instance of \<open>atan2f\<close> that returns a given value.\<close>

definition fixed_atan2f :: "real \<Rightarrow> real \<Rightarrow> real \<Rightarrow> real" where
  "fixed_atan2f a y x = a"


section \<open>Properties\<close>

subsection \<open>Stable sorting through index arrays\<close>

lemma insort_key_map_aux: "insort_key f (g y) (map g zs) = map g (insort_key (\<lambda>z. f (g z)) y zs)"
  by (induction zs) simp_all

lemma sort_key_map_aux: "sort_key f (map g ys) = map g (sort_key (\<lambda>z. f (g z)) ys)"
  by (induction ys) (simp_all add: insort_key_map_aux)

lemma insort_key_cong_aux:
  "k1 y = k2 y \<Longrightarrow> (\<And>z. z \<in> set zs \<Longrightarrow> k1 z = k2 z) \<Longrightarrow> insort_key k1 y zs = insort_key k2 y zs"
  by (induction zs) simp_all

lemma sort_key_cong_aux:
  "(\<And>z. z \<in> set ys \<Longrightarrow> k1 z = k2 z) \<Longrightarrow> sort_key k1 ys = sort_key k2 ys"
proof (induction ys)
  case Nil
  then show ?case by simp
next
  case (Cons y ys)
  have "sort_key k1 ys = sort_key k2 ys" using Cons by simp
  moreover have "insort_key k1 y (sort_key k2 ys) = insort_key k2 y (sort_key k2 ys)"
    by (rule insort_key_cong_aux) (use Cons.prems in auto)
  ultimately show ?case by simp
qed

lemma take_rows_argsort: "take_rows a (argsort (map f a)) = sort_key f a"
proof -
  have "sort_key (\<lambda>i. map f a ! i) [0..<length a] = sort_key (\<lambda>i. f (a ! i)) [0..<length a]"
    by (rule sort_key_cong_aux) simp
  then have "take_rows a (argsort (map f a)) = map (\<lambda>i. a ! i) (sort_key (\<lambda>i. f (a ! i)) [0..<length a])"
    by (simp add: take_rows_def argsort_def)
  also have "\<dots> = sort_key f (map (\<lambda>i. a ! i) [0..<length a])"
    by (simp add: sort_key_map_aux)
  also have "\<dots> = sort_key f a" by (simp add: map_nth)
  finally show ?thesis .
qed

subsection \<open>The cast to float32 on pixel coordinates\<close>

lemma round_half_even_of_int: "round_half_even (of_int m) = m"
  by (simp add: round_half_even_def)

lemma round_to_dyadic:
  assumes "\<bar>k\<bar> < 2 ^ Suc p" and "int m \<le> int p - emin"
  shows "round_to p emin (of_int k / 2 ^ m) = of_int k / 2 ^ m"
proof (cases "k = 0")
  case True
  then show ?thesis by (simp add: round_to_def)
next
  case False
  define v :: real where "v = of_int k / 2 ^ m"
  have v0: "v \<noteq> 0" using False by (simp add: v_def)
  have k1: "1 \<le> \<bar>real_of_int k\<bar>" using False by simp
  have k2: "\<bar>real_of_int k\<bar> < 2 ^ Suc p"
  proof -
    have "real_of_int \<bar>k\<bar> < real_of_int (2 ^ Suc p)" using assms(1) by (simp only: of_int_less_iff)
    then show ?thesis by simp
  qed
  have av: "\<bar>v\<bar> = \<bar>real_of_int k\<bar> / 2 ^ m" by (simp add: v_def)
  have "log 2 \<bar>real_of_int k\<bar> < log 2 (2 ^ Suc p)"
    using k1 k2 by (subst log_less_cancel_iff) simp_all
  also have "log 2 ((2::real) ^ Suc p) = real (Suc p)" by (rule log_pow_cancel) simp_all
  finally have lk: "log 2 \<bar>real_of_int k\<bar> < real (Suc p)" .
  have "log 2 \<bar>v\<bar> = log 2 \<bar>real_of_int k\<bar> - log 2 (2 ^ m)"
    unfolding av using False by (subst log_divide) simp_all
  also have "log 2 ((2::real) ^ m) = real m" by (rule log_pow_cancel) simp_all
  finally have lv: "log 2 \<bar>v\<bar> < real (Suc p) - real m" using lk by simp
  define e where "e = max \<lfloor>log 2 \<bar>v\<bar>\<rfloor> emin"
  have "\<lfloor>log 2 \<bar>v\<bar>\<rfloor> \<le> int p - int m" using lv by linarith
  then have e_le: "e \<le> int p - int m" using assms(2) by (simp add: e_def)
  define n where "n = nat (int p - int m - e)"
  have n: "int n = int p - int m - e" using e_le by (simp add: n_def)
  have "real_of_int e - real p = - real (n + m)"
  proof -
    have "real_of_int e = real_of_int (int p - int m - int n)" using n by simp
    then show ?thesis by simp
  qed
  then have "(2::real) powr (of_int e - of_nat p) = 2 powr (- real (n + m))" by simp
  also have "\<dots> = inverse (2 powr real (n + m))" by (rule powr_minus)
  also have "(2::real) powr real (n + m) = 2 ^ (n + m)" by (rule powr_realpow) simp
  also have "inverse ((2::real) ^ (n + m)) = 1 / 2 ^ (n + m)" by (rule inverse_eq_divide)
  finally have ulp: "(2::real) powr (of_int e - of_nat p) = 1 / 2 ^ (n + m)" .
  have q: "v / (1 / 2 ^ (n + m)) = of_int (k * 2 ^ n)"
    by (simp add: v_def power_add)
  have "round_to p emin v = (1 / 2 ^ (n + m)) * of_int (round_half_even (v / (1 / 2 ^ (n + m))))"
    using v0 ulp unfolding round_to_def Let_def e_def by simp
  also have "\<dots> = (1 / 2 ^ (n + m)) * of_int (k * 2 ^ n)"
    unfolding q round_half_even_of_int ..
  also have "\<dots> = v" by (simp add: v_def power_add)
  finally show ?thesis unfolding v_def .
qed

lemma float32_of_int:
  assumes "\<bar>k\<bar> < 2 ^ 24"
  shows "float32 (of_int k) = of_int k"
  using round_to_dyadic [of k 23 0 "- 126"] assms by (simp add: float32_def)

lemma float32_pixel:
  assumes "pixel_coordinate v"
  shows "float32 v = v"
proof -
  have v: "of_int \<lfloor>v\<rfloor> = v" and b: "\<bar>v\<bar> < 2 ^ 24"
    using assms by (simp_all add: pixel_coordinate_def)
  have "real_of_int \<bar>\<lfloor>v\<rfloor>\<bar> = \<bar>real_of_int \<lfloor>v\<rfloor>\<bar>" by simp
  also have "\<dots> = \<bar>v\<bar>" by (simp only: v)
  finally have "real_of_int \<bar>\<lfloor>v\<rfloor>\<bar> = \<bar>v\<bar>" .
  then have "real_of_int \<bar>\<lfloor>v\<rfloor>\<bar> < real_of_int (2 ^ 24)" using b by simp
  then have "\<bar>\<lfloor>v\<rfloor>\<bar> < 2 ^ 24" by (simp only: of_int_less_iff)
  then have "float32 (of_int \<lfloor>v\<rfloor>) = of_int \<lfloor>v\<rfloor>" by (rule float32_of_int)
  then show ?thesis by (simp only: v)
qed

lemma astype_float32_pixel: "pixel_points ps \<Longrightarrow> astype_float32 ps = ps"
  by (induction ps) (simp_all add: astype_float32_def pixel_points_def float32_pixel)

lemma pixel_points_set: "set ps = set qs \<Longrightarrow> pixel_points ps = pixel_points qs"
  by (simp add: pixel_points_def list_all_iff)

lemma order_right_pair:
  "take_rows [r0, r1] (rev (argsort (cdist0 p [r0, r1]))) =
     (if euclidean p r0 \<le> euclidean p r1 then [r1, r0] else [r0, r1])"
  by (simp add: take_rows_def argsort_def cdist0_def)

lemma sort_key_pair: "sort_key f [x, y] = (if f x \<le> f y then [x, y] else [y, x])"
  by simp

lemma order_points_len: "order_points P = Inr Q \<Longrightarrow> length P = 4"
  unfolding order_points_def take_rows_argsort Let_def
  by (auto simp: take_rows_def argsort_def cdist0_def split: if_splits)

lemma list4: "length P = 4 \<Longrightarrow> \<exists>a b c d. P = [a, b, c, d]"
  by (auto simp: numeral_eq_Suc length_Suc_conv)

lemma order_points_of_sorted:
  assumes "sort_key fst P = [s0, s1, s2, s3]"
  shows "order_points P =
     Inr (astype_float32
          (let l = (if snd s0 \<le> snd s1 then [s0, s1] else [s1, s0]);
               r = (if euclidean (l ! 0) s2 \<le> euclidean (l ! 0) s3 then [s3, s2] else [s2, s3])
           in [l ! 0, r ! 1, r ! 0, l ! 1]))"
  unfolding order_points_def take_rows_argsort Let_def assms
  by (simp add: order_right_pair)

lemma order_points_of_sorted_pixel:
  assumes "sort_key fst P = [s0, s1, s2, s3]" and "pixel_points P"
  shows "order_points P =
     Inr (let l = (if snd s0 \<le> snd s1 then [s0, s1] else [s1, s0]);
              r = (if euclidean (l ! 0) s2 \<le> euclidean (l ! 0) s3 then [s3, s2] else [s2, s3])
          in [l ! 0, r ! 1, r ! 0, l ! 1])"
proof -
  have "set [s0, s1, s2, s3] = set P" unfolding assms(1) [symmetric] by simp
  then have "pixel_points [s0, s1, s2, s3]" using assms(2) pixel_points_set by blast
  then have px: "pixel_points [a, b, c, d]"
    if "a \<in> {s0, s1, s2, s3}" "b \<in> {s0, s1, s2, s3}" "c \<in> {s0, s1, s2, s3}" "d \<in> {s0, s1, s2, s3}"
    for a b c d
    using that by (auto simp: pixel_points_def)
  show ?thesis
    unfolding order_points_of_sorted [OF assms(1)] Let_def
    by (simp add: astype_float32_pixel px)
qed

lemma order_points_char:
  assumes "order_points P = Inr Q" and "pixel_points P"
  shows "length Q = 4 \<and> pixel_points Q
          \<and> snd (Q ! 0) \<le> snd (Q ! 3) \<and> (snd (Q ! 0) = snd (Q ! 3) \<longrightarrow> fst (Q ! 0) \<le> fst (Q ! 3))
          \<and> euclidean (Q ! 0) (Q ! 1) \<le> euclidean (Q ! 0) (Q ! 2)
          \<and> (euclidean (Q ! 0) (Q ! 1) = euclidean (Q ! 0) (Q ! 2) \<longrightarrow> fst (Q ! 1) \<le> fst (Q ! 2))"
proof -
  have "length P = 4" using assms(1) by (rule order_points_len)
  then have "length (sort_key fst P) = 4" by simp
  then obtain s0 s1 s2 s3 where S: "sort_key fst P = [s0, s1, s2, s3]"
    using list4 by blast
  have "sorted (map fst (sort_key fst P))" by (rule sorted_sort_key)
  then have le: "fst s0 \<le> fst s1" "fst s2 \<le> fst s3" by (simp_all add: S)
  have "set [s0, s1, s2, s3] = set P" unfolding S [symmetric] by simp
  then have "pixel_points [s0, s1, s2, s3]" using assms(2) pixel_points_set by blast
  then have px: "pixel_points [s0, s1, s2, s3]" "pixel_points [s0, s1, s3, s2]"
    "pixel_points [s1, s0, s2, s3]" "pixel_points [s1, s0, s3, s2]"
    "pixel_points [s0, s2, s3, s1]" "pixel_points [s0, s3, s2, s1]"
    "pixel_points [s1, s2, s3, s0]" "pixel_points [s1, s3, s2, s0]"
    by (auto simp: pixel_points_def)
  show ?thesis
    using assms(1) le px unfolding order_points_of_sorted_pixel [OF S assms(2)]
    by (auto simp: Let_def split: if_splits)
qed

lemma order_points_fix:
  assumes "snd a \<le> snd d" "snd a = snd d \<longrightarrow> fst a \<le> fst d"
    "euclidean a b \<le> euclidean a c" "euclidean a b = euclidean a c \<longrightarrow> fst b \<le> fst c"
    "max (fst a) (fst d) < min (fst b) (fst c)"
    and px: "pixel_points [a, b, c, d]"
  shows "order_points [a, b, c, d] = Inr [a, b, c, d]"
proof -
  have S: "sort_key fst [a, b, c, d] =
      (if fst a \<le> fst d then [a, d] else [d, a]) @ (if fst b \<le> fst c then [b, c] else [c, b])"
    using assms(5) by auto
  show ?thesis
  proof (cases "fst a \<le> fst d")
    case ad: True
    show ?thesis
    proof (cases "fst b \<le> fst c")
      case True
      then have "sort_key fst [a, b, c, d] = [a, d, b, c]" using S ad by simp
      from order_points_of_sorted_pixel [OF this px] show ?thesis using assms by (simp add: Let_def)
    next
      case False
      then have "sort_key fst [a, b, c, d] = [a, d, c, b]" using S ad by simp
      from order_points_of_sorted_pixel [OF this px] show ?thesis using assms False by (auto simp add: Let_def)
    qed
  next
    case ad: False
    show ?thesis
    proof (cases "fst b \<le> fst c")
      case True
      then have "sort_key fst [a, b, c, d] = [d, a, b, c]" using S ad by simp
      from order_points_of_sorted_pixel [OF this px] show ?thesis using assms ad by (auto simp add: Let_def)
    next
      case False
      then have "sort_key fst [a, b, c, d] = [d, a, c, b]" using S ad by simp
      from order_points_of_sorted_pixel [OF this px] show ?thesis using assms False ad by (auto simp add: Let_def)
    qed
  qed
qed

lemma pixel_coordinate_numeral:
  "numeral w < (2::real) ^ 24 \<Longrightarrow> pixel_coordinate (numeral w)"
  "pixel_coordinate 0" "pixel_coordinate 1"
  by (simp_all add: pixel_coordinate_def)

text \<open>
  Claim C4, as amended. On the integer pixel coordinates (of magnitude below \<open>2\<^sup>2\<^sup>4\<close>, which
  the cast to float32 keeps as they are) that the decoder passes in, re-canonicalising an
  array that \<open>order_points\<close> has produced returns it unchanged whenever, in that array,
  both left corners (top-left, bottom-left) have an x-coordinate strictly smaller than
  both right corners (top-right, bottom-right).
\<close>

theorem order_points_idempotent_separated:
  assumes "order_points P = Inr Q"
    and "pixel_points P"
    and "max (fst (Q ! 0)) (fst (Q ! 3)) < min (fst (Q ! 1)) (fst (Q ! 2))"
  shows "order_points Q = Inr Q"
proof -
  note ch = order_points_char [OF assms(1) assms(2)]
  then obtain a b c d where Q: "Q = [a, b, c, d]" using list4 by blast
  have "order_points [a, b, c, d] = Inr [a, b, c, d]"
    by (rule order_points_fix) (use ch assms(3) Q in simp_all)
  then show ?thesis unfolding Q .
qed

theorem order_points_idempotent_separated_witness:
  "order_points [(4, 4), (2, 2), (4, 2), (2, 4)] = Inr [(2, 2), (4, 2), (4, 4), (2, 4)]
   \<and> pixel_points [(4, 4), (2, 2), (4, 2), (2, 4)]
   \<and> max (fst (([(2, 2), (4, 2), (4, 4), (2, 4)] :: point list) ! 0)) (fst (([(2, 2), (4, 2), (4, 4), (2, 4)] :: point list) ! 3))
       < min (fst (([(2, 2), (4, 2), (4, 4), (2, 4)] :: point list) ! 1)) (fst (([(2, 2), (4, 2), (4, 4), (2, 4)] :: point list) ! 2))
   \<and> order_points [(2, 2), (4, 2), (4, 4), (2, 4)] = Inr [(2, 2), (4, 2), (4, 4), (2, 4)]"
proof -
  have h1: "order_points [(4, 4), (2, 2), (4, 2), (2, 4)] = Inr [(2, 2), (4, 2), (4, 4), (2, 4)]"
    by (simp add: order_points_def take_rows_def argsort_def cdist0_def euclidean_def Let_def
        astype_float32_def float32_pixel pixel_coordinate_numeral)
  have h2: "pixel_points [(4, 4), (2, 2), (4, 2), (2, 4)]"
    by (simp add: pixel_points_def pixel_coordinate_numeral)
  have h3: "max (fst (([(2, 2), (4, 2), (4, 4), (2, 4)] :: point list) ! 0)) (fst (([(2, 2), (4, 2), (4, 4), (2, 4)] :: point list) ! 3))
       < min (fst (([(2, 2), (4, 2), (4, 4), (2, 4)] :: point list) ! 1)) (fst (([(2, 2), (4, 2), (4, 4), (2, 4)] :: point list) ! 2))"
    by simp
  from order_points_idempotent_separated [OF h1 h2 h3] h1 h2 h3 show ?thesis by blast
qed

text \<open>
  Claim C4, as stated, fails on a diamond (a convex quadrilateral whose top and bottom
  corners share their x-coordinate): the canonical array that \<open>order_points\<close> returns for
  it is reordered by a second application, because the tie between the second and third
  smallest x-coordinates is broken by the position in the input array.
\<close>

theorem order_points_not_idempotent_diamond:
  "order_points [(0, 1), (1, 2), (1, 0), (2, 1)] = Inr [(0, 1), (1, 0), (2, 1), (1, 2)]
   \<and> order_points [(0, 1), (1, 0), (2, 1), (1, 2)] = Inr [(1, 0), (2, 1), (1, 2), (0, 1)]
   \<and> order_points [(0, 1), (1, 0), (2, 1), (1, 2)] \<noteq> Inr [(0, 1), (1, 0), (2, 1), (1, 2)]"
  by (simp add: order_points_def take_rows_def argsort_def cdist0_def euclidean_def Let_def
      astype_float32_def float32_pixel pixel_coordinate_numeral)

subsection \<open>Contours near the frame boundary or outside the area band\<close>

lemma flat_set:
  "set (concat (map (\<lambda>(px, py). [px, py]) cnt)) = fst ` set cnt \<union> snd ` set cnt"
  by (induction cnt) auto

lemma count_pos: "x \<in> set xs \<Longrightarrow> P x \<Longrightarrow> length (filter P xs) \<noteq> 0"
  by (simp add: filter_empty_conv) blast

lemma process_contour_area_low:
  assumes "\<not> -2000 < contourArea cv cnt"
  shows "process_contour atan2f cv barcodes IDs gray' image_shape pt1 pos_msec pos_frames cnt = Inr None"
  unfolding process_contour_def Let_def using assms by simp

lemma process_contour_area_high:
  assumes "\<not> contourArea cv cnt < -10"
  shows "process_contour atan2f cv barcodes IDs gray' image_shape pt1 pos_msec pos_frames cnt = Inr None"
  unfolding process_contour_def Let_def using assms by simp

lemma process_contour_edge_zero:
  assumes "length (filter (\<lambda>v. v \<le> edge_thresh) (concat (map (\<lambda>(px, py). [px, py]) cnt))) \<noteq> 0"
  shows "process_contour atan2f cv barcodes IDs gray' image_shape pt1 pos_msec pos_frames cnt = Inr None"
  unfolding process_contour_def Let_def using assms by simp

lemma process_contour_edge_maxx:
  assumes "length (filter (\<lambda>v. v \<ge> int (snd image_shape) - edge_thresh) (map fst cnt)) \<noteq> 0"
  shows "process_contour atan2f cv barcodes IDs gray' image_shape pt1 pos_msec pos_frames cnt = Inr None"
  unfolding process_contour_def Let_def using assms by simp

lemma process_contour_edge_maxy:
  assumes "length (filter (\<lambda>v. v \<ge> int (fst image_shape) - edge_thresh) (map snd cnt)) \<noteq> 0"
  shows "process_contour atan2f cv barcodes IDs gray' image_shape pt1 pos_msec pos_frames cnt = Inr None"
  unfolding process_contour_def Let_def using assms by simp

lemma process_contour_vertex:
  assumes "p \<in> set cnt"
    and "fst p \<le> edge_thresh \<or> snd p \<le> edge_thresh
         \<or> fst p \<ge> int (snd image_shape) - edge_thresh \<or> snd p \<ge> int (fst image_shape) - edge_thresh"
  shows "process_contour atan2f cv barcodes IDs gray' image_shape pt1 pos_msec pos_frames cnt = Inr None"
proof -
  have fl: "fst p \<in> set (concat (map (\<lambda>(px, py). [px, py]) cnt))"
    "snd p \<in> set (concat (map (\<lambda>(px, py). [px, py]) cnt))"
    using assms(1) unfolding flat_set by simp_all
  have mx: "fst p \<in> set (map fst cnt)" and my: "snd p \<in> set (map snd cnt)"
    using assms(1) by simp_all
  consider (a) "fst p \<le> edge_thresh" | (b) "snd p \<le> edge_thresh"
    | (c) "fst p \<ge> int (snd image_shape) - edge_thresh"
    | (d) "snd p \<ge> int (fst image_shape) - edge_thresh"
    using assms(2) by blast
  then show ?thesis
  proof cases
    case a
    show ?thesis
      by (rule process_contour_edge_zero) (rule count_pos [where P = "\<lambda>v. v \<le> edge_thresh", OF fl(1) a])
  next
    case b
    show ?thesis
      by (rule process_contour_edge_zero) (rule count_pos [where P = "\<lambda>v. v \<le> edge_thresh", OF fl(2) b])
  next
    case c
    show ?thesis
      by (rule process_contour_edge_maxx)
        (rule count_pos [where P = "\<lambda>v. v \<ge> int (snd image_shape) - edge_thresh", OF mx c])
  next
    case d
    show ?thesis
      by (rule process_contour_edge_maxy)
        (rule count_pos [where P = "\<lambda>v. v \<ge> int (fst image_shape) - edge_thresh", OF my d])
  qed
qed

text \<open>
  Claim C6. A contour is rejected, with no record and no exception, if one of its
  vertices has a coordinate of at most \<open>edge_thresh\<close>, or an x-coordinate of at least
  the frame width less \<open>edge_thresh\<close>, or a y-coordinate of at least the frame height
  less \<open>edge_thresh\<close>, or if its signed area is not strictly between \<open>-2000\<close> and \<open>-10\<close>.
  (\<open>image_shape\<close> is the pair of the frame's height and width.)
\<close>

theorem contour_rejected_edge_or_area:
  assumes "(\<exists>p \<in> set cnt. fst p \<le> edge_thresh \<or> snd p \<le> edge_thresh
              \<or> fst p \<ge> int (snd image_shape) - edge_thresh
              \<or> snd p \<ge> int (fst image_shape) - edge_thresh)
           \<or> \<not> (-2000 < contourArea cv cnt \<and> contourArea cv cnt < -10)"
  shows "process_contour atan2f cv barcodes IDs gray' image_shape pt1 pos_msec pos_frames cnt = Inr None"
proof -
  consider (v) p where "p \<in> set cnt" "fst p \<le> edge_thresh \<or> snd p \<le> edge_thresh
         \<or> fst p \<ge> int (snd image_shape) - edge_thresh \<or> snd p \<ge> int (fst image_shape) - edge_thresh"
    | (lo) "\<not> -2000 < contourArea cv cnt" | (hi) "\<not> contourArea cv cnt < -10"
    using assms by blast
  then show ?thesis
  proof cases
    case v
    then show ?thesis by (rule process_contour_vertex)
  next
    case lo
    then show ?thesis by (rule process_contour_area_low)
  next
    case hi
    then show ?thesis by (rule process_contour_area_high)
  qed
qed

theorem contour_rejected_edge_or_area_witness:
  "(0, 5) \<in> set [(0, 5), (5, 5), (5, 9), (0, 9 :: int)]
   \<and> fst (0 :: int, 5 :: int) \<le> edge_thresh
   \<and> process_contour (fixed_atan2f 0) (fixed_cv [] [] (-100) 40 [] True []) [] [] [] (100, 100) (0, 0) 0 0
         [(0, 5), (5, 5), (5, 9), (0, 9)] = Inr None"
proof -
  have h: "(\<exists>p \<in> set [(0, 5), (5, 5), (5, 9), (0, 9 :: int)].
              fst p \<le> edge_thresh \<or> snd p \<le> edge_thresh
              \<or> fst p \<ge> int (snd (100 :: nat, 100 :: nat)) - edge_thresh
              \<or> snd p \<ge> int (fst (100 :: nat, 100 :: nat)) - edge_thresh)
           \<or> \<not> (-2000 < contourArea (fixed_cv [] [] (-100) 40 [] True []) [(0, 5), (5, 5), (5, 9), (0, 9)]
                \<and> contourArea (fixed_cv [] [] (-100) 40 [] True []) [(0, 5), (5, 5), (5, 9), (0, 9)] < -10)"
    by (simp add: edge_thresh_def)
  from contour_rejected_edge_or_area [OF h] show ?thesis
    by (simp add: edge_thresh_def)
qed

subsection \<open>The acceptance test\<close>

text \<open>
  Claim C5. Whatever the values of the array \<open>correlation\<close>: when its best value is not
  above the acceptance threshold (the literal \<open>0.8\<close>; below it, equal to it, or \<open>nan\<close>),
  the candidate yields no record and no exception, and a record is produced only when
  the best value is strictly above the threshold.
\<close>

theorem detection_only_above_threshold:
  assumes "np_max (concat correlation) = Inr best_value"
  shows "(\<not> fl_gt best_value acceptance \<longrightarrow>
            accept_match atan2f IDs pts correlation pt1 pos_msec pos_frames = Inr None)
         \<and> (\<forall>d. accept_match atan2f IDs pts correlation pt1 pos_msec pos_frames = Inr (Some d) \<longrightarrow>
                fl_gt best_value acceptance)"
  using assms by (simp add: accept_match_def)

theorem detection_only_above_threshold_witness:
  "np_max (concat [[Fin (1 / 2)], [Fin (3 / 4)]]) = Inr (Fin (3 / 4))
   \<and> \<not> fl_gt (Fin (3 / 4)) acceptance
   \<and> accept_match (fixed_atan2f 0) [7, 8] [(2, 2), (4, 2), (4, 4), (2, 4)] [[Fin (1 / 2)], [Fin (3 / 4)]] (0, 0) 0 0
       = Inr None"
proof -
  have h: "np_max (concat [[Fin (1 / 2)], [Fin (3 / 4)]]) = Inr (Fin (3 / 4))"
    by (simp add: np_max_def np_maximum_def)
  have g: "\<not> fl_gt (Fin (3 / 4)) acceptance"
    by (simp add: acceptance_def)
  from detection_only_above_threshold [OF h] g h show ?thesis by blast
qed

subsection \<open>Correlation with a constant patch\<close>

lemma map_const_replicate: "\<forall>v \<in> set xs. f v = k \<Longrightarrow> map f xs = replicate (length xs) k"
  by (induction xs) simp_all

lemma mean1_replicate: "0 < n \<Longrightarrow> mean1 (replicate n x) = x"
  by (simp add: mean1_def sum_list_replicate)

lemma subtract_mean_replicate: "0 < n \<Longrightarrow> subtract_mean (replicate n x) = replicate n 0"
  by (simp add: subtract_mean_def mean1_replicate map_replicate_const)

lemma sum_squares_zero: "sum_squares (replicate n 0) = 0"
  by (simp add: sum_squares_def sum_list_replicate)

lemma dot_zero: "dot a (replicate n 0) = 0"
proof -
  have "\<forall>v \<in> set (zip a (replicate n (0::real))). (\<lambda>(x, y). x * y) v = 0"
    by (auto dest: set_zip_rightD)
  then have "map2 (*) a (replicate n (0::real)) = replicate (length (zip a (replicate n (0::real)))) 0"
    by (rule map_const_replicate)
  then show ?thesis by (simp add: dot_def sum_list_replicate)
qed

lemma map_zip_const: "map (\<lambda>(a, sa). k) (zip (map g xs) (map h xs)) = map (\<lambda>row. k) xs"
  by (induction xs) simp_all

lemma corr2_coeff_constant:
  assumes "A \<noteq> []" and "\<forall>row \<in> set A. length row = n" and "0 < n"
  shows "corr2_coeff A [replicate n x] = Inr (map (\<lambda>row. [NaN]) A)"
proof -
  have len: "\<not> (\<exists>a \<in> set A. \<exists>b \<in> set [replicate n x]. length a \<noteq> length b)"
    using assms(2) by simp
  have "corr2_coeff A [replicate n x] =
      Inr (map (\<lambda>(a, sa). map (\<lambda>(b, sb). np_divide (dot a b) (sqrt (sa * sb)))
                                 (zip [replicate n 0] [0]))
               (zip (map subtract_mean A) (map sum_squares (map subtract_mean A))))"
    using assms(1) len assms(3)
    unfolding corr2_coeff_def Let_def
    by (simp add: subtract_mean_replicate sum_squares_zero del: set_simps)
  also have "\<dots> = Inr (map (\<lambda>row. [NaN]) A)"
    by (simp add: map_zip_const dot_zero np_divide_def)
  finally show ?thesis .
qed

lemma np_max_all_nan: "xs \<noteq> [] \<Longrightarrow> np_max (map (\<lambda>row. NaN) xs) = Inr NaN"
proof -
  assume "xs \<noteq> []"
  then obtain y ys where xs: "xs = y # ys" by (cases xs) auto
  have "foldl np_maximum NaN (map (\<lambda>row. NaN) ys) = NaN"
    by (induction ys) (simp_all add: np_maximum_def)
  then show ?thesis by (simp add: np_max_def xs)
qed

text \<open>
  Claim C10. For a patch all of whose \<open>flat_len\<close> cells hold the same value, and a
  non-empty library of rows of \<open>flat_len\<close> cells, \<open>corr2_coeff\<close> raises nothing and
  returns \<open>nan\<close> for every library entry (the quotient \<open>0/0\<close>), and the patch is dropped:
  no record and no exception.
\<close>

theorem constant_patch_dropped:
  assumes "barcodes \<noteq> []"
    and "\<forall>row \<in> set barcodes. length row = flat_len"
    and "length (concat resize_warp) = flat_len"
    and "\<forall>v \<in> set (concat resize_warp). v = c"
  shows "corr2_coeff barcodes [map (\<lambda>v. real (unat v)) (concat resize_warp)]
           = Inr (map (\<lambda>row. [NaN]) barcodes)
         \<and> decode_patch atan2f barcodes IDs pts resize_warp pt1 pos_msec pos_frames = Inr None"
proof -
  have "map (\<lambda>v. real (unat v)) (concat resize_warp) = replicate flat_len (real (unat c))"
    using map_const_replicate [of "concat resize_warp" "\<lambda>v. real (unat v)" "real (unat c)"] assms(3,4)
    by simp
  moreover have "0 < flat_len" by (simp add: flat_len_def barcode_size_def)
  ultimately have c: "corr2_coeff barcodes [map (\<lambda>v. real (unat v)) (concat resize_warp)]
           = Inr (map (\<lambda>row. [NaN]) barcodes)"
    using corr2_coeff_constant [OF assms(1,2)] by simp
  have "accept_match atan2f IDs pts (map (\<lambda>row. [NaN]) barcodes) pt1 pos_msec pos_frames = Inr None"
    by (simp add: accept_match_def np_max_all_nan [OF assms(1)])
  then have "decode_patch atan2f barcodes IDs pts resize_warp pt1 pos_msec pos_frames = Inr None"
    unfolding decode_patch_def c using assms(3) by simp
  with c show ?thesis by simp
qed

theorem constant_patch_dropped_witness:
  "[replicate 24 0 @ replicate 25 1] \<noteq> ([] :: real list list)
   \<and> length (replicate 24 0 @ replicate 25 (1 :: real)) = flat_len
   \<and> length (concat (replicate 7 (replicate 7 (5 :: 8 word)))) = flat_len
   \<and> corr2_coeff [replicate 24 0 @ replicate 25 1]
        [map (\<lambda>v. real (unat v)) (concat (replicate 7 (replicate 7 (5 :: 8 word))))] = Inr [[NaN]]
   \<and> decode_patch (fixed_atan2f 0) [replicate 24 0 @ replicate 25 1] [7] [(2, 2), (4, 2), (4, 4), (2, 4)]
        (replicate 7 (replicate 7 5)) (0, 0) 0 0 = Inr None"
proof -
  have h1: "[replicate 24 0 @ replicate 25 1] \<noteq> ([] :: real list list)" by simp
  have h2: "\<forall>row \<in> set [replicate 24 0 @ replicate 25 (1 :: real)]. length row = flat_len"
    by (simp add: flat_len_def barcode_size_def)
  have h3: "length (concat (replicate 7 (replicate 7 (5 :: 8 word)))) = flat_len"
    by (simp add: flat_len_def barcode_size_def length_concat sum_list_replicate)
  have h4: "\<forall>v \<in> set (concat (replicate 7 (replicate 7 (5 :: 8 word)))). v = 5"
    by simp
  from constant_patch_dropped [OF h1 h2 h3 h4] h1 h2 h3 show ?thesis by simp
qed

subsection \<open>Frames whose thresholded image lacks one of the two values\<close>

lemma get_contours_raises:
  assumes "0 \<notin> set (concat threshold_image) \<or> 255 \<notin> set (concat threshold_image)"
  shows "get_contours cv threshold_image = Inl AssertionError"
  using assms by (auto simp: get_contours_def)

text \<open>
  Claim C2 fails on the code. When the thresholded image of a frame lacks the value 255
  (as for a frame of one colour, in which no pixel exceeds its neighbourhood mean by 25)
  or lacks the value 0, the assertion of \<open>get_contours\<close> fails and the frame raises
  \<open>AssertionError\<close>, though the frame contains no marker.
\<close>

theorem markerless_frame_raises:
  assumes "0 \<notin> set (concat (adaptiveThreshold cv
                 (GaussianBlur cv (map (map (\<lambda>(b, g, r). g)) (crop image' pt1 pt2)) (1, 1) 1) 255 201 (-25)))
           \<or> 255 \<notin> set (concat (adaptiveThreshold cv
                 (GaussianBlur cv (map (map (\<lambda>(b, g, r). g)) (crop image' pt1 pt2)) (1, 1) 1) 255 201 (-25)))"
  shows "process_frame atan2f cv barcodes IDs pt1 pt2 pos_msec pos_frames image' = Inl AssertionError"
  unfolding process_frame_def Let_def
  by (simp add: get_grayscale_def get_threshold_def get_contours_raises [OF assms] del: One_nat_def)

theorem markerless_frame_raises_witness:
  "255 \<notin> set (concat (adaptiveThreshold (fixed_cv [[0, 0], [0, 0]] [] 0 0 [] False [])
                 (GaussianBlur (fixed_cv [[0, 0], [0, 0]] [] 0 0 [] False [])
                    (map (map (\<lambda>(b, g, r). g))
                       (crop [[(9, 9, 9), (9, 9, 9)], [(9, 9, 9), (9, 9, 9)]] (0, 0) (2, 2))) (1, 1) 1)
                 255 201 (-25)))
   \<and> process_frame (fixed_atan2f 0) (fixed_cv [[0, 0], [0, 0]] [] 0 0 [] False []) [] [] (0, 0) (2, 2) 0 0
        [[(9, 9, 9), (9, 9, 9)], [(9, 9, 9), (9, 9, 9)]] = Inl AssertionError"
proof -
  have h: "255 \<notin> set (concat (adaptiveThreshold (fixed_cv [[0, 0], [0, 0]] [] 0 0 [] False [])
                 (GaussianBlur (fixed_cv [[0, 0], [0, 0]] [] 0 0 [] False [])
                    (map (map (\<lambda>(b, g, r). g))
                       (crop [[(9, 9, 9), (9, 9, 9)], [(9, 9, 9), (9, 9, 9)]] (0, 0) (2, 2))) (1, 1) 1)
                 255 201 (-25)))"
    by (simp add: fixed_cv_def)
  from markerless_frame_raises [OF disjI2, OF h] h show ?thesis by blast
qed

subsection \<open>An accepted detection, evaluated\<close>

lemma dot_self: "dot x x = sum_squares x"
proof -
  have "map2 (*) x x = map (\<lambda>v. v\<^sup>2) x"
    by (induction x) (simp_all add: power2_eq_square)
  then show ?thesis by (simp add: dot_def sum_squares_def)
qed

lemma sum_squares_nonneg: "0 \<le> sum_squares x"
  by (induction x) (simp_all add: sum_squares_def)

lemma sum_squares_pos:
  assumes "v \<in> set x" and "v \<noteq> 0"
  shows "0 < sum_squares x"
  using assms
proof (induction x)
  case Nil
  then show ?case by simp
next
  case (Cons a x)
  have t: "0 \<le> sum_squares x" by (rule sum_squares_nonneg)
  have s: "sum_squares (a # x) = a\<^sup>2 + sum_squares x" by (simp add: sum_squares_def)
  show ?case
  proof (cases "v = a")
    case True
    then have "0 < a\<^sup>2" using Cons.prems(2) by simp
    then show ?thesis using t s by linarith
  next
    case False
    then have "0 < sum_squares x" using Cons by simp
    moreover have "0 \<le> a\<^sup>2" by simp
    ultimately show ?thesis using s by linarith
  qed
qed

lemma variance_pos:
  assumes "i < length a" and "j < length a" and "a ! i \<noteq> a ! j"
  shows "0 < sum_squares (subtract_mean a)"
proof -
  have "a ! i - mean1 a \<noteq> 0 \<or> a ! j - mean1 a \<noteq> 0" using assms(3) by auto
  then obtain k where k: "k < length a" "a ! k - mean1 a \<noteq> 0" using assms(1,2) by blast
  have "a ! k - mean1 a \<in> set (subtract_mean a)"
    unfolding subtract_mean_def using k(1) by (auto simp: in_set_conv_nth intro!: image_eqI [where x = "a ! k"])
  then show ?thesis using k(2) by (rule sum_squares_pos)
qed

lemma corr2_coeff_self:
  assumes "0 < sum_squares (subtract_mean a)"
  shows "corr2_coeff [a] [a] = Inr [[Fin 1]]"
proof -
  have "sqrt (sum_squares (subtract_mean a) * sum_squares (subtract_mean a)) = sum_squares (subtract_mean a)"
    using assms by simp
  then show ?thesis
    using assms by (simp add: corr2_coeff_def Let_def dot_self np_divide_def)
qed

lemma pixel_coordinate_neg_numeral:
  "numeral w < (2::real) ^ 24 \<Longrightarrow> pixel_coordinate (- numeral w)"
  by (simp add: pixel_coordinate_def)

text \<open>
  The example: a square of side 16 whose contour runs with a negative signed area
  (\<open>-256\<close>, perimeter \<open>64\<close>), its own polygon approximation, in a frame of 100 by 100
  pixels, with a rectified patch equal to the only pattern of the library. The vector
  from the centroid to the middle of the left edge is \<open>(-8, 0)\<close>, for which \<open>atan2f\<close>
  returns the float32 nearest to \<open>\<pi>\<close>.
\<close>

lemma ex_order:
  "order_points [(10, 10), (10, 26), (26, 26), (26, 10)] = Inr [(10, 10), (26, 10), (26, 26), (10, 26)]"
  by (simp add: order_points_def take_rows_def argsort_def cdist0_def euclidean_def Let_def
      astype_float32_def float32_pixel pixel_coordinate_numeral)

lemma ex_emit:
  "emit_detection atan2f [7] [(10, 10), (26, 10), (26, 26), (10, 26)] 0 best_value (0, 0) 0 0
     = Inr \<lparr>msec = 0, frame_number = 0, tag_id = 7, id_prob = best_value, pos_x = 18, pos_y = - 18,
            orientation = np_degrees (np_remainder (atan2f 0 (- 8)) two_pi)\<rparr>"
proof -
  have m4: "mean0 [(10, 10), (26, 10), (26, 26), (10, 26)] = (18, 18)"
    by (simp add: mean0_def add_reduce_def float32_pixel pixel_coordinate_numeral)
  have m2: "mean0 [(10, 10), (10, 26)] = (10, 18)"
    by (simp add: mean0_def add_reduce_def float32_pixel pixel_coordinate_numeral)
  have v: "float32 (- 8) = - 8" "float32 0 = 0"
    by (simp_all add: float32_pixel pixel_coordinate_numeral pixel_coordinate_neg_numeral)
  show ?thesis
    by (simp add: emit_detection_def Let_def m4 m2 v angle_def np_isnan_def)
qed

lemma concat_replicate_replicate: "concat (replicate n (replicate m x)) = replicate (n * m) x"
  by (induction n) (simp_all add: replicate_add)

lemma ex_patch:
  "map (\<lambda>v. real (unat v)) (concat (replicate 6 (replicate 7 (0 :: 8 word)) @ [replicate 7 255]))
     = replicate 42 0 @ replicate 7 255"
  by (simp add: concat_replicate_replicate)

lemma ex_variance: "0 < sum_squares (subtract_mean (replicate 42 0 @ replicate 7 (255 :: real)))"
  by (rule variance_pos [of 0 _ 48]) (simp_all add: nth_append)

lemma ex_decode:
  "decode_patch atan2f [replicate 42 0 @ replicate 7 255] [7] [(10, 10), (26, 10), (26, 26), (10, 26)]
     (replicate 6 (replicate 7 0) @ [replicate 7 255]) (0, 0) 0 0
     = Inr (Some \<lparr>msec = 0, frame_number = 0, tag_id = 7, id_prob = Fin 1, pos_x = 18, pos_y = - 18,
                  orientation = np_degrees (np_remainder (atan2f 0 (- 8)) two_pi)\<rparr>)"
proof -
  have len: "length (concat (replicate 6 (replicate 7 (0 :: 8 word)) @ [replicate 7 255])) = flat_len"
    by (simp add: flat_len_def barcode_size_def length_concat sum_list_replicate)
  have acc: "accept_match atan2f [7] [(10, 10), (26, 10), (26, 26), (10, 26)] [[Fin 1]] (0, 0) 0 0
      = Inr (Some \<lparr>msec = 0, frame_number = 0, tag_id = 7, id_prob = Fin 1, pos_x = 18, pos_y = - 18,
                  orientation = np_degrees (np_remainder (atan2f 0 (- 8)) two_pi)\<rparr>)"
    by (simp add: accept_match_def np_max_def np_argmax_def acceptance_def ex_emit)
  show ?thesis
    unfolding decode_patch_def ex_patch corr2_coeff_self [OF ex_variance]
    using len acc by simp
qed

lemma ex_ratio: "float64 (- (1 / 4)) = - (1 / 4)"
  using round_to_dyadic [of "- 1" 52 2 "- 1022"] by (simp add: float64_def)

lemma ex_accept:
  "process_contour atan2f
     (fixed_cv [] [] (- 256) 64 [(10, 10), (10, 26), (26, 26), (26, 10)] True
        (replicate 6 (replicate 7 0) @ [replicate 7 255]))
     [replicate 42 0 @ replicate 7 255] [7] gray' (100, 100) (0, 0) 0 0
     [(10, 10), (10, 26), (26, 26), (26, 10)]
   = Inr (Some \<lparr>msec = 0, frame_number = 0, tag_id = 7, id_prob = Fin 1, pos_x = 18, pos_y = - 18,
                orientation = np_degrees (np_remainder (atan2f 0 (- 8)) two_pi)\<rparr>)"
  unfolding process_contour_def Let_def
  by (simp add: fixed_cv_def edge_thresh_def ex_ratio ex_order ex_decode barcode_size_def maxSide_def)

subsection \<open>The tests on the polygon approximation\<close>











subsection \<open>The position written for a detection\<close>

lemma emit_detection_position:
  assumes "emit_detection atan2f IDs pts best_index best_value pt1 pos_msec pos_frames = Inr d"
  shows "pos_x d = fst (mean0 pts) + fst pt1 \<and> pos_y d = - snd (mean0 pts) + snd pt1"
  using assms unfolding emit_detection_def Let_def angle_def np_isnan_def
  by (auto split: list.splits if_splits option.splits)

lemma accept_match_position:
  assumes "accept_match atan2f IDs pts correlation pt1 pos_msec pos_frames = Inr (Some d)"
  shows "pos_x d = fst (mean0 pts) + fst pt1 \<and> pos_y d = - snd (mean0 pts) + snd pt1"
proof -
  from assms obtain best_index best_value where
    "emit_detection atan2f IDs pts best_index best_value pt1 pos_msec pos_frames = Inr d"
    unfolding accept_match_def by (auto split: sum.splits if_splits)
  then show ?thesis by (rule emit_detection_position)
qed

lemma decode_patch_position:
  assumes "decode_patch atan2f barcodes IDs pts resize_warp pt1 pos_msec pos_frames = Inr (Some d)"
  shows "pos_x d = fst (mean0 pts) + fst pt1 \<and> pos_y d = - snd (mean0 pts) + snd pt1"
proof -
  from assms obtain correlation where
    "accept_match atan2f IDs pts correlation pt1 pos_msec pos_frames = Inr (Some d)"
    unfolding decode_patch_def by (auto split: sum.splits if_splits)
  then show ?thesis by (rule accept_match_position)
qed

text \<open>
  Claim C1 fails on the code. For every contour for which a record is written, with
  \<open>pts\<close> the canonical corners: the field \<open>x\<close> is the mean of the corners' x-coordinates plus
  \<open>pt1[0]\<close>, and the field \<open>y\<close> is the \<^emph>\<open>negated\<close> mean of the corners' y-coordinates plus
  \<open>pt1[1]\<close>, because \<^verbatim>\<open>centroid[1] = -centroid[1]\<close> has changed the array in place before
  the line is written.
\<close>

theorem written_centroid_y_negated:
  assumes "process_contour atan2f cv barcodes IDs gray' image_shape pt1 pos_msec pos_frames cnt = Inr (Some d)"
  shows "case order_points (map (\<lambda>(px, py). (real_of_int px, real_of_int py))
             (approxPolyDP cv cnt (float64 (epsilon_factor * arcLength cv cnt)))) of
           Inl e \<Rightarrow> False
         | Inr pts \<Rightarrow> pos_x d = fst (mean0 pts) + fst pt1 \<and> pos_y d = - snd (mean0 pts) + snd pt1"
  using assms unfolding process_contour_def Let_def
  by (simp split: if_splits sum.splits add: decode_patch_position)

theorem written_centroid_y_negated_witness:
  "map_sum id (map_option pos_y)
     (process_contour (fixed_atan2f (13176795 / 4194304))
        (fixed_cv [] [] (- 256) 64 [(10, 10), (10, 26), (26, 26), (26, 10)] True
           (replicate 6 (replicate 7 0) @ [replicate 7 255]))
        [replicate 42 0 @ replicate 7 255] [7] (replicate 100 (replicate 100 0)) (100, 100) (0, 0) 0 0
        [(10, 10), (10, 26), (26, 26), (26, 10)]) = Inr (Some (- 18))
   \<and> map_sum id (map_option pos_x)
     (process_contour (fixed_atan2f (13176795 / 4194304))
        (fixed_cv [] [] (- 256) 64 [(10, 10), (10, 26), (26, 26), (26, 10)] True
           (replicate 6 (replicate 7 0) @ [replicate 7 255]))
        [replicate 42 0 @ replicate 7 255] [7] (replicate 100 (replicate 100 0)) (100, 100) (0, 0) 0 0
        [(10, 10), (10, 26), (26, 26), (26, 10)]) = Inr (Some 18)
   \<and> order_points (map (\<lambda>(px, py). (real_of_int px, real_of_int py)) [(10, 10), (10, 26), (26, 26), (26, 10)])
       = Inr [(10, 10), (26, 10), (26, 26), (10, 26)]
   \<and> mean0 [(10, 10), (26, 10), (26, 26), (10, 26)] = (18, 18)
   \<and> - 18 = - snd (mean0 [(10, 10), (26, 10), (26, 26), (10, 26)]) + snd (0 :: real, 0 :: real)
   \<and> - 18 \<noteq> snd (mean0 [(10, 10), (26, 10), (26, 26), (10, 26)]) + snd (0 :: real, 0 :: real)"
proof -
  note e = ex_accept [of "fixed_atan2f (13176795 / 4194304)" "replicate 100 (replicate 100 0)"]
  have m: "mean0 [(10, 10), (26, 10), (26, 26), (10, 26)] = (18, 18)"
    by (simp add: mean0_def add_reduce_def float32_pixel pixel_coordinate_numeral)
  have o: "order_points (map (\<lambda>(px, py). (real_of_int px, real_of_int py)) [(10, 10), (10, 26), (26, 26), (26, 10)])
       = Inr [(10, 10), (26, 10), (26, 26), (10, 26)]"
    using ex_order by simp
  from written_centroid_y_negated [OF e] e m o show ?thesis
    by (simp add: fixed_cv_def)
qed

end
